theory Spec2Isabelle
  imports Complex_Main "HOL-Library.Sublist" "HOL-Library.Product_Lexorder"
begin

section \<open>JavaScript values\<close>

text \<open>
  The web client is JavaScript. A JS string is modelled as \<open>string\<close>: one \<open>char\<close> stands
  for one UTF-16 code unit, which is what \<open>length\<close>, \<open>slice\<close>, \<open>split\<close> and
  \<open>startsWith\<close> count. Nothing below depends on the range of a code unit.

  \<open>js\<close> is the value space of \<open>JSON.parse\<close> together with \<open>undefined\<close>, which a
  property read of a missing key yields.
\<close>

datatype js =
    JUndefined
  | JNull
  | JBool bool
  | JNum int
  | JStr string
  | JArr "js list"
  | JObj "(string \<times> js) list"

text \<open>
  An identifier held in React state is \<open>null\<close> or a string: \<open>string option\<close>.
  \<open>truthy\<close> is JS truthiness on that type: \<open>null\<close> and the empty string are falsy.
  \<open>js_or a b\<close> is \<open>a || b\<close>.
\<close>

fun truthy :: "string option \<Rightarrow> bool" where
  "truthy None = False"
| "truthy (Some s) = (s \<noteq> [])"

definition js_or :: "string option \<Rightarrow> string option \<Rightarrow> string option" where
  "js_or a b = (if truthy a then a else b)"


section \<open>ChatContext: conversations per project\<close>

record message =
  msg_role :: string
  msg_content :: string
  msg_sources :: js

record conversation =
  conv_id :: string
  conv_title :: string
  conv_messages :: "message list"
  conv_createdAt :: string

text \<open>
  The provider's state: \<open>conversationsByProject\<close> is a JS object keyed by project id,
  \<open>currentConversationId\<close> is \<open>null\<close> or an id. \<open>selectedProjectId\<close> comes from the
  project context and is passed in.
\<close>

record chat_state =
  conversationsByProject :: "string \<rightharpoonup> conversation list"
  currentConversationId :: "string option"

text \<open>\<open>prev[selectedProjectId] || []\<close>: an array is truthy, a missing key is \<open>undefined\<close>.\<close>

definition conversations_of :: "(string \<rightharpoonup> conversation list) \<Rightarrow> string \<Rightarrow> conversation list" where
  "conversations_of m pid = (case m pid of None \<Rightarrow> [] | Some cs \<Rightarrow> cs)"

text \<open>\<open>title.length > 30 ? title.slice(0, 30) + '...' : title\<close>\<close>

definition trim_title :: "string \<Rightarrow> string" where
  "trim_title t = (if length t > 30 then take 30 t @ ''...'' else t)"

definition updateConversationTitle ::
  "string option \<Rightarrow> chat_state \<Rightarrow> string \<Rightarrow> string option \<Rightarrow> chat_state" where
  "updateConversationTitle selectedProjectId st t conversationId =
     (let targetConvId = js_or conversationId (currentConversationId st) in
      case (selectedProjectId, targetConvId) of
        (Some pid, Some tid) \<Rightarrow>
          if \<not> truthy selectedProjectId \<or> \<not> truthy targetConvId then st
          else
            let trimmed = trim_title t in
            st\<lparr>conversationsByProject :=
                 (conversationsByProject st)(pid \<mapsto>
                    map (\<lambda>conv. if conv_id conv = tid then conv\<lparr>conv_title := trimmed\<rparr> else conv)
                        (conversations_of (conversationsByProject st) pid))\<rparr>
      | _ \<Rightarrow> st)"

definition deleteConversation ::
  "string option \<Rightarrow> chat_state \<Rightarrow> string \<Rightarrow> chat_state" where
  "deleteConversation selectedProjectId st conversationId =
     (case selectedProjectId of
        Some pid \<Rightarrow>
          if \<not> truthy selectedProjectId then st
          else
            let st' = st\<lparr>conversationsByProject :=
                          (conversationsByProject st)(pid \<mapsto>
                             filter (\<lambda>c. conv_id c \<noteq> conversationId)
                                    (conversations_of (conversationsByProject st) pid))\<rparr>
            in if currentConversationId st = Some conversationId
               then st'\<lparr>currentConversationId := None\<rparr>
               else st'
      | None \<Rightarrow> st)"


section \<open>JavaScript conversions and property reads\<close>

definition digit_char :: "nat \<Rightarrow> char" where
  "digit_char d = ''0123456789'' ! d"

fun show_nat :: "nat \<Rightarrow> string" where
  "show_nat n = (if n < 10 then [digit_char n] else show_nat (n div 10) @ [digit_char (n mod 10)])"

declare show_nat.simps [simp del]

definition show_int :: "int \<Rightarrow> string" where
  "show_int i = (if i < 0 then CHR ''-'' # show_nat (nat (- i)) else show_nat (nat i))"

fun join_comma :: "string list \<Rightarrow> string" where
  "join_comma [] = []"
| "join_comma [s] = s"
| "join_comma (s # t # ss) = s @ '','' @ join_comma (t # ss)"

text \<open>
  \<open>js_to_string\<close> is the conversion that \<open>content += data.data\<close> applies to its right
  operand. Numbers are the integers here; a number with a fraction or an exponent (as any
  number from \<open>10^21\<close> on is printed) is outside the model, and so is an object with a
  \<open>toString\<close> of its own.
\<close>

fun js_to_string :: "js \<Rightarrow> string" where
  "js_to_string JUndefined = ''undefined''"
| "js_to_string JNull = ''null''"
| "js_to_string (JBool b) = (if b then ''true'' else ''false'')"
| "js_to_string (JNum n) = show_int n"
| "js_to_string (JStr s) = s"
| "js_to_string (JArr xs) =
     join_comma (map (\<lambda>x. if x = JNull \<or> x = JUndefined then [] else js_to_string x) xs)"
| "js_to_string (JObj kvs) = ''[object Object]''"

text \<open>Truthiness of a value, as \<open>||\<close> tests it.\<close>

fun js_truthy :: "js \<Rightarrow> bool" where
  "js_truthy JUndefined = False"
| "js_truthy JNull = False"
| "js_truthy (JBool b) = b"
| "js_truthy (JNum n) = (n \<noteq> 0)"
| "js_truthy (JStr s) = (s \<noteq> [])"
| "js_truthy (JArr xs) = True"
| "js_truthy (JObj kvs) = True"

text \<open>
  \<open>get_prop v k\<close> is the property read \<open>v.k\<close> for the keys the client reads (\<open>type\<close>,
  \<open>data\<close>, \<open>answer\<close>, \<open>sources\<close>, \<open>file_count\<close>, \<open>index_size_bytes\<close>): on
  \<open>undefined\<close> and \<open>null\<close> it throws a TypeError (\<open>None\<close>), on an object it yields the
  value of the key or \<open>undefined\<close>, on any other value \<open>undefined\<close>. An object lists
  each of its keys once, as the result of \<open>JSON.parse\<close> does.
\<close>

fun get_prop :: "js \<Rightarrow> string \<Rightarrow> js option" where
  "get_prop JUndefined k = None"
| "get_prop JNull k = None"
| "get_prop (JObj kvs) k = Some (case map_of kvs k of None \<Rightarrow> JUndefined | Some v \<Rightarrow> v)"
| "get_prop v k = Some JUndefined"


section \<open>Reading an event stream\<close>

definition newline :: char where
  "newline = CHR 0x0A"

text \<open>\<open>s.split('\n')\<close>: the pieces between line feeds; never empty, \<open>''.split('\n')\<close> is \<open>['']\<close>.\<close>

fun split_nl :: "string \<Rightarrow> string list" where
  "split_nl [] = [[]]"
| "split_nl (c # cs) =
     (if c = newline then [] # split_nl cs
      else (case split_nl cs of [] \<Rightarrow> [[c]] | l # ls \<Rightarrow> (c # l) # ls))"

text \<open>
  \<open>JSON.parse\<close> is a builtin and is taken as a parameter \<open>parse\<close>; \<open>None\<close> is the
  SyntaxError it throws.

  A \<open>fetch\<close> either rejects with an error (name and message) or resolves to a response
  with its \<open>ok\<close> flag, the \<open>detail\<close> field of its JSON error body (if any), its status code
  and its body. The body is what successive \<open>reader.read()\<close> calls deliver: the chunks, then
  either the end of the stream or a rejected read. A chunk is the text that
  \<open>decoder.decode(value, {stream: true})\<close> returns for it.
\<close>

type_synonym json_parse = "string \<Rightarrow> js option"

datatype read_end = EndOfStream | ReadRejected string string

datatype 'c response =
    FetchRejected string string
  | Response bool "string option" nat "'c list" read_end


section \<open>useStreamingChat: sendMessage\<close>

text \<open>
  The hook's state, the two locals \<open>content\<close> and \<open>sources\<close> of \<open>sendMessage\<close>, and
  \<open>completed\<close>, the arguments of the calls of \<open>onComplete\<close> made so far, in order.
\<close>

record streaming_chat =
  isStreaming :: bool
  streamingContent :: string
  streamingSources :: js
  error :: "string option"
  content :: string
  sources :: js
  completed :: "(string \<times> js) list"

text \<open>The body of \<open>for (const line of lines)\<close>; every exception in it is swallowed.\<close>

definition sendMessage_line :: "json_parse \<Rightarrow> streaming_chat \<Rightarrow> string \<Rightarrow> streaming_chat" where
  "sendMessage_line parse st line =
     (if prefix ''data: '' line then
        (case parse (drop 6 line) of
           None \<Rightarrow> st
         | Some data \<Rightarrow>
            (case get_prop data ''type'' of
               None \<Rightarrow> st
             | Some ty \<Rightarrow>
                if ty = JStr ''sources'' then
                  (case get_prop data ''data'' of
                     None \<Rightarrow> st
                   | Some d \<Rightarrow> st\<lparr>sources := d, streamingSources := d\<rparr>)
                else if ty = JStr ''content'' then
                  (case get_prop data ''data'' of
                     None \<Rightarrow> st
                   | Some d \<Rightarrow>
                      let c = content st @ js_to_string d
                      in st\<lparr>content := c, streamingContent := c\<rparr>)
                else if ty = JStr ''done'' then
                  st\<lparr>completed := completed st @ [(content st, sources st)]\<rparr>
                else st))
      else st)"

definition sendMessage_chunk :: "json_parse \<Rightarrow> streaming_chat \<Rightarrow> string \<Rightarrow> streaming_chat" where
  "sendMessage_chunk parse st chunk = foldl (sendMessage_line parse) st (split_nl chunk)"

text \<open>
  The \<open>while (true)\<close> loop. Each read comes with the state of the abort signal at the time it
  resolves. The result is the state and the error thrown, if any.
\<close>

fun sendMessage_reads ::
  "json_parse \<Rightarrow> streaming_chat \<Rightarrow> (bool \<times> string) list \<Rightarrow> read_end
     \<Rightarrow> streaming_chat \<times> (string \<times> string) option" where
  "sendMessage_reads parse st [] EndOfStream = (st, None)"
| "sendMessage_reads parse st [] (ReadRejected name msg) = (st, Some (name, msg))"
| "sendMessage_reads parse st ((aborted, chunk) # rest) e =
     (if aborted then (st, None)
      else sendMessage_reads parse (sendMessage_chunk parse st chunk) rest e)"

definition sendMessage_started :: "streaming_chat \<Rightarrow> streaming_chat" where
  "sendMessage_started st =
     st\<lparr>isStreaming := True, streamingContent := [], streamingSources := JArr [],
        error := None, content := [], sources := JArr [], completed := []\<rparr>"

text \<open>The source's fallback message is the Chinese for ``request failed''.\<close>

definition request_failed :: string where
  "request_failed = ''request failed''"

definition sendMessage_try ::
  "json_parse \<Rightarrow> streaming_chat \<Rightarrow> (bool \<times> string) response
     \<Rightarrow> streaming_chat \<times> (string \<times> string) option" where
  "sendMessage_try parse st resp =
     (case resp of
        FetchRejected name msg \<Rightarrow> (st, Some (name, msg))
      | Response ok detail status reads e \<Rightarrow>
          if \<not> ok then
            (st, Some (''Error'', case detail of
                                    Some d \<Rightarrow> if truthy detail then d else ''HTTP '' @ show_nat status
                                  | None \<Rightarrow> ''HTTP '' @ show_nat status))
          else sendMessage_reads parse st reads e)"

definition sendMessage :: "json_parse \<Rightarrow> streaming_chat \<Rightarrow> (bool \<times> string) response \<Rightarrow> streaming_chat" where
  "sendMessage parse st resp =
     (let (st2, thrown) = sendMessage_try parse (sendMessage_started st) resp;
          st3 = (case thrown of
                   None \<Rightarrow> st2
                 | Some (name, msg) \<Rightarrow>
                     if name \<noteq> ''AbortError''
                     then st2\<lparr>error := Some (if msg \<noteq> [] then msg else request_failed)\<rparr>
                     else st2)
      in st3\<lparr>isStreaming := False, streamingContent := [], streamingSources := JArr []\<rparr>)"


section \<open>ProjectContext and TrainingPage: startIndexing\<close>

text \<open>The four keys of \<open>statusMap\<close>.\<close>

datatype index_status = Idle | Indexing | Indexed | Failed

record project =
  proj_id :: string
  proj_name :: string
  proj_status :: index_status
  file_count :: js
  index_size_bytes :: js

text \<open>The \<open>updates\<close> object of \<open>updateProjectInList\<close>: the fields it carries.\<close>

record updates =
  upd_status :: "index_status option"
  upd_file_count :: "js option"
  upd_index_size_bytes :: "js option"

text \<open>\<open>{ ...p, ...updates }\<close>\<close>

definition merge_updates :: "project \<Rightarrow> updates \<Rightarrow> project" where
  "merge_updates p u =
     p\<lparr>proj_status := (case upd_status u of None \<Rightarrow> proj_status p | Some s \<Rightarrow> s),
       file_count := (case upd_file_count u of None \<Rightarrow> file_count p | Some v \<Rightarrow> v),
       index_size_bytes := (case upd_index_size_bytes u of None \<Rightarrow> index_size_bytes p | Some v \<Rightarrow> v)\<rparr>"

definition updateProjectInList :: "project list \<Rightarrow> string \<Rightarrow> updates \<Rightarrow> project list" where
  "updateProjectInList prev projectId u =
     map (\<lambda>p. if proj_id p = projectId then merge_updates p u else p) prev"

definition status_update :: "index_status \<Rightarrow> updates" where
  "status_update s = \<lparr>upd_status = Some s, upd_file_count = None, upd_index_size_bytes = None\<rparr>"

text \<open>
  \<open>startIndexing\<close> changes the project list only through \<open>updateProjectInList\<close>, always
  for the same project id. \<open>startIndexing_line\<close> gives the updates one line of a chunk
  causes (none or one): the object literal of the \<open>complete\<close> branch is evaluated before the
  call, so a \<open>complete\<close> event without \<open>data\<close> throws and updates nothing.
\<close>

definition startIndexing_line :: "json_parse \<Rightarrow> string \<Rightarrow> updates list" where
  "startIndexing_line parse line =
     (if prefix ''data: '' line then
        (case parse (drop 6 line) of
           None \<Rightarrow> []
         | Some event \<Rightarrow>
            (case get_prop event ''type'' of
               None \<Rightarrow> []
             | Some ty \<Rightarrow>
                if ty = JStr ''complete'' then
                  (case get_prop event ''data'' of
                     None \<Rightarrow> []
                   | Some d \<Rightarrow>
                      (case (get_prop d ''file_count'', get_prop d ''index_size_bytes'') of
                         (Some fc, Some sz) \<Rightarrow>
                           [\<lparr>upd_status = Some Indexed, upd_file_count = Some fc,
                              upd_index_size_bytes = Some sz\<rparr>]
                       | _ \<Rightarrow> []))
                else if ty = JStr ''error'' then [status_update Failed]
                else []))
      else [])"

definition startIndexing_chunk :: "json_parse \<Rightarrow> string \<Rightarrow> updates list" where
  "startIndexing_chunk parse chunk = concat (map (startIndexing_line parse) (split_nl chunk))"

text \<open>The \<open>while (true)\<close> loop with the \<open>catch\<close> that follows a rejected read.\<close>

fun startIndexing_reads :: "json_parse \<Rightarrow> string list \<Rightarrow> read_end \<Rightarrow> updates list" where
  "startIndexing_reads parse [] EndOfStream = []"
| "startIndexing_reads parse [] (ReadRejected name msg) = [status_update Failed]"
| "startIndexing_reads parse (chunk # rest) e =
     startIndexing_chunk parse chunk @ startIndexing_reads parse rest e"

text \<open>
  The updates of one call, in order. The response's \<open>ok\<close> flag is not looked at. The timer
  of the \<open>finally\<close> block, which reloads the list from the server a second later, is not
  part of the model.
\<close>

definition startIndexing_updates :: "json_parse \<Rightarrow> string response \<Rightarrow> updates list" where
  "startIndexing_updates parse resp =
     status_update Indexing #
     (case resp of
        FetchRejected name msg \<Rightarrow> [status_update Failed]
      | Response ok detail status reads e \<Rightarrow> startIndexing_reads parse reads e)"

definition startIndexing :: "json_parse \<Rightarrow> project list \<Rightarrow> string \<Rightarrow> string response \<Rightarrow> project list" where
  "startIndexing parse projects projectId resp =
     foldl (\<lambda>ps u. updateProjectInList ps projectId u) projects (startIndexing_updates parse resp)"

text \<open>
  The statuses a project goes through under a sequence of updates, the status before the
  first update included.
\<close>

fun status_trace :: "index_status \<Rightarrow> updates list \<Rightarrow> index_status list" where
  "status_trace s [] = [s]"
| "status_trace s (u # us) =
     s # status_trace (case upd_status u of None \<Rightarrow> s | Some s' \<Rightarrow> s') us"




section \<open>useAgentChat: runAgent\<close>

text \<open>
  The hook's state, the locals \<open>allSteps\<close> and \<open>buffer\<close>, and \<open>agent_completed\<close>, the
  arguments (answer, sources, steps) of the calls of \<open>onComplete\<close> so far.
\<close>

record agent_chat =
  isRunning :: bool
  steps :: "js list"
  currentStep :: js
  finalAnswer :: js
  agent_sources :: js
  agent_error :: "string option"
  allSteps :: "js list"
  buffer :: string
  agent_completed :: "(js \<times> js \<times> js list) list"

definition runAgent_line :: "json_parse \<Rightarrow> agent_chat \<Rightarrow> string \<Rightarrow> agent_chat" where
  "runAgent_line parse st line =
     (if prefix ''data: '' line then
        (case parse (drop 6 line) of
           None \<Rightarrow> st
         | Some data \<Rightarrow>
            (case get_prop data ''type'' of
               None \<Rightarrow> st
             | Some ty \<Rightarrow>
                if ty = JStr ''step'' then
                  (case get_prop data ''data'' of
                     None \<Rightarrow> st
                   | Some step \<Rightarrow>
                      let a = allSteps st @ [step]
                      in st\<lparr>allSteps := a, steps := a, currentStep := step\<rparr>)
                else if ty = JStr ''complete'' then
                  (case get_prop data ''data'' of
                     None \<Rightarrow> st
                   | Some d \<Rightarrow>
                      (case get_prop d ''answer'' of
                         None \<Rightarrow> st
                       | Some answer \<Rightarrow>
                          let st1 = st\<lparr>finalAnswer := answer\<rparr>
                          in (case get_prop d ''sources'' of
                                None \<Rightarrow> st1
                              | Some src \<Rightarrow>
                                 st1\<lparr>agent_sources := (if js_truthy src then src else JArr []),
                                     agent_completed :=
                                       agent_completed st1 @ [(answer, src, allSteps st1)]\<rparr>)))
                else st))
      else st)"

text \<open>
  One pass of the loop body: the chunk is appended to the buffer, the buffer is split, its
  last piece is kept (\<open>lines.pop() || ''\<close>) and the other pieces are handled.
\<close>

definition runAgent_chunk :: "json_parse \<Rightarrow> agent_chat \<Rightarrow> string \<Rightarrow> agent_chat" where
  "runAgent_chunk parse st chunk =
     (let lines = split_nl (buffer st @ chunk)
      in foldl (runAgent_line parse) (st\<lparr>buffer := last lines\<rparr>) (butlast lines))"

fun runAgent_reads ::
  "json_parse \<Rightarrow> agent_chat \<Rightarrow> string list \<Rightarrow> read_end \<Rightarrow> agent_chat \<times> (string \<times> string) option" where
  "runAgent_reads parse st [] EndOfStream = (st, None)"
| "runAgent_reads parse st [] (ReadRejected name msg) = (st, Some (name, msg))"
| "runAgent_reads parse st (chunk # rest) e = runAgent_reads parse (runAgent_chunk parse st chunk) rest e"

definition runAgent_started :: "agent_chat \<Rightarrow> agent_chat" where
  "runAgent_started st =
     st\<lparr>isRunning := True, steps := [], currentStep := JNull, finalAnswer := JStr [],
        agent_sources := JArr [], agent_error := None, allSteps := [], buffer := [],
        agent_completed := []\<rparr>"

text \<open>The source's fallback message is ``Agent'' followed by the Chinese for ``request failed''.\<close>

definition agent_request_failed :: string where
  "agent_request_failed = ''Agent request failed''"

definition runAgent_try ::
  "json_parse \<Rightarrow> agent_chat \<Rightarrow> string response \<Rightarrow> agent_chat \<times> (string \<times> string) option" where
  "runAgent_try parse st resp =
     (case resp of
        FetchRejected name msg \<Rightarrow> (st, Some (name, msg))
      | Response ok detail status reads e \<Rightarrow>
          if \<not> ok then
            (st, Some (''Error'', case detail of
                                    Some d \<Rightarrow> if truthy detail then d else ''HTTP '' @ show_nat status
                                  | None \<Rightarrow> ''HTTP '' @ show_nat status))
          else runAgent_reads parse st reads e)"

definition runAgent :: "json_parse \<Rightarrow> agent_chat \<Rightarrow> string response \<Rightarrow> agent_chat" where
  "runAgent parse st resp =
     (let (st2, thrown) = runAgent_try parse (runAgent_started st) resp;
          st3 = (case thrown of
                   None \<Rightarrow> st2
                 | Some (name, msg) \<Rightarrow>
                     if name \<noteq> ''AbortError''
                     then st2\<lparr>agent_error := Some (if msg \<noteq> [] then msg else agent_request_failed)\<rparr>
                     else st2)
      in st3\<lparr>isRunning := False, currentStep := JNull\<rparr>)"


section \<open>Events and lines of a stream\<close>

text \<open>
  The event on a line of a stream: its \<open>type\<close> and its \<open>data\<close>, if the line is a
  \<open>data: \<close> line whose payload is JSON with that property. The text that a \<open>content\<close>
  event adds to the answer.
\<close>

definition event_type :: "json_parse \<Rightarrow> string \<Rightarrow> js option" where
  "event_type parse line =
     (if prefix ''data: '' line then
        (case parse (drop 6 line) of None \<Rightarrow> None | Some data \<Rightarrow> get_prop data ''type'')
      else None)"

definition event_data :: "json_parse \<Rightarrow> string \<Rightarrow> js option" where
  "event_data parse line =
     (if prefix ''data: '' line then
        (case parse (drop 6 line) of None \<Rightarrow> None | Some data \<Rightarrow> get_prop data ''data'')
      else None)"

definition content_delta :: "json_parse \<Rightarrow> string \<Rightarrow> string" where
  "content_delta parse line =
     (if event_type parse line = Some (JStr ''content'')
      then (case event_data parse line of None \<Rightarrow> [] | Some d \<Rightarrow> js_to_string d)
      else [])"

text \<open>
  The text of the stream that has been delivered when \<open>sendMessage\<close> stops reading: the
  chunks of the reads before the first read that finds the abort signal set, one after the
  other. Its lines are the lines of the stream, wherever the reads have cut it.
\<close>

definition text_delivered :: "(bool \<times> string) list \<Rightarrow> string" where
  "text_delivered reads = concat (map snd (takeWhile (\<lambda>r. \<not> fst r) reads))"

text \<open>A chunk that ends where a line ends; the server writes whole events.\<close>

definition ends_line :: "string \<Rightarrow> bool" where
  "ends_line chunk = (chunk = [] \<or> last chunk = newline)"

text \<open>
  The pieces that the loop of \<open>sendMessage\<close> handles as lines: each chunk split by itself.
\<close>

definition lines_handled :: "(bool \<times> string) list \<Rightarrow> string list" where
  "lines_handled reads = concat (map (\<lambda>r. split_nl (snd r)) (takeWhile (\<lambda>r. \<not> fst r) reads))"


section \<open>The terminal events of an indexing response\<close>





section \<open>API client: askStream\<close>

text \<open>The JSON body of the POST to \<open>/ask/stream\<close>.\<close>

record ask_request =
  req_project_id :: string
  req_question :: string
  req_top_k :: nat

text \<open>
  \<open>askStream: (projectId, question, topK = 50)\<close>. The default of a parameter applies when
  the argument is left out (\<open>None\<close>).
\<close>

definition askStream :: "string \<Rightarrow> string \<Rightarrow> nat option \<Rightarrow> ask_request" where
  "askStream projectId question topK =
     \<lparr>req_project_id = projectId, req_question = question,
      req_top_k = (case topK of None \<Rightarrow> 50 | Some k \<Rightarrow> k)\<rparr>"

text \<open>\<open>sendMessage\<close> issues \<open>chatApi.askStream(projectId, question)\<close>.\<close>

definition sendMessage_request :: "string \<Rightarrow> string \<Rightarrow> ask_request" where
  "sendMessage_request projectId question = askStream projectId question None"


section \<open>ChatPage: who may ask\<close>

text \<open>The projects offered by the selector of the sidebar, and the values of its options.\<close>

definition indexedProjects :: "project list \<Rightarrow> project list" where
  "indexedProjects projects = filter (\<lambda>p. proj_status p = Indexed) projects"

definition selector_options :: "project list \<Rightarrow> string list" where
  "selector_options projects = map proj_id (indexedProjects projects)"

text \<open>\<open>projects.find((p) => p.id === selectedProjectId)\<close>\<close>

definition selectedProject :: "project list \<Rightarrow> string option \<Rightarrow> project option" where
  "selectedProject projects selectedProjectId =
     find (\<lambda>p. Some (proj_id p) = selectedProjectId) projects"

text \<open>\<open>!!selectedProjectId && selectedProject?.status === 'indexed'\<close>\<close>

definition canSend :: "project list \<Rightarrow> string option \<Rightarrow> bool" where
  "canSend projects selectedProjectId =
     (truthy selectedProjectId \<and>
      (case selectedProject projects selectedProjectId of
         None \<Rightarrow> False
       | Some p \<Rightarrow> proj_status p = Indexed))"

text \<open>
  \<open>input.trim()\<close>, for the white space of ASCII; the white space beyond ASCII that
  \<open>trim\<close> strips as well is outside the model.
\<close>

definition js_space :: "char \<Rightarrow> bool" where
  "js_space c = (c \<in> set [CHR '' '', CHR 0x09, CHR 0x0A, CHR 0x0B, CHR 0x0C, CHR 0x0D])"

definition js_trim :: "string \<Rightarrow> string" where
  "js_trim s = rev (dropWhile js_space (rev (dropWhile js_space s)))"

text \<open>
  \<open>handleSend(question)\<close>: the request it issues through \<open>sendMessage\<close>, or \<open>None\<close> when it
  returns early. Both the send button and the Enter key call it without an argument, the
  example questions call it with their text. What it does to the conversation is left out.
\<close>

definition handleSend ::
  "project list \<Rightarrow> string option \<Rightarrow> string option \<Rightarrow> string \<Rightarrow> ask_request option" where
  "handleSend projects selectedProjectId question input =
     (let q = (if truthy question then (case question of Some s \<Rightarrow> s | None \<Rightarrow> [])
               else js_trim input)
      in if q = [] \<or> \<not> canSend projects selectedProjectId then None
         else (case selectedProjectId of
                 None \<Rightarrow> None
               | Some pid \<Rightarrow> Some (sendMessage_request pid q)))"


section \<open>The server's Retriever\<close>

datatype rag_error = ProjectNotIndexed | EmbeddingUnavailable

record chunk =
  chunk_path :: string
  chunk_module :: string
  chunk_content :: string

record candidate =
  cand_chunk :: chunk
  vector_score :: real
  bm25_score :: real

text \<open>
  The server as far as retrieval goes: the status of each project, its collection of chunks
  if it has one, and the texts handed to the embedding service so far.
\<close>

record server =
  srv_status :: "string \<rightharpoonup> index_status"
  srv_collection :: "string \<rightharpoonup> chunk list"
  embed_calls :: "string list"

text \<open>
  Modelled from the spec: the Retriever (\<open>retriever.py\<close> and the server around it are not
  under \<open>src/\<close>). A request against a project that is not known, is \<open>idle\<close> or has no
  collection fails with \<open>ProjectNotIndexed\<close> before anything is embedded. Otherwise the
  question is embedded (\<open>embedding\<close>, the embedding service, fails with \<open>None\<close>), and the
  collection is queried: the chunks with their similarity as \<open>vector_score\<close>, by descending
  similarity, ties in insertion order, at most \<open>topK\<close> of them.
\<close>

definition retrieve ::
  "(string \<Rightarrow> 'v option) \<Rightarrow> ('v \<Rightarrow> chunk \<Rightarrow> real) \<Rightarrow> server \<Rightarrow> ask_request
     \<Rightarrow> (rag_error + candidate list) \<times> server" where
  "retrieve embedding similarity srv req =
     (case (srv_status srv (req_project_id req), srv_collection srv (req_project_id req)) of
        (Some st, Some chunks) \<Rightarrow>
          if st = Idle then (Inl ProjectNotIndexed, srv)
          else
            let srv' = srv\<lparr>embed_calls := embed_calls srv @ [req_question req]\<rparr>
            in (case embedding (req_question req) of
                  None \<Rightarrow> (Inl EmbeddingUnavailable, srv')
                | Some v \<Rightarrow>
                    (Inr (take (req_top_k req)
                            (sort_key (\<lambda>c. - vector_score c)
                               (map (\<lambda>ch. \<lparr>cand_chunk = ch, vector_score = similarity v ch,
                                           bm25_score = 0\<rparr>) chunks))),
                     srv'))
      | _ \<Rightarrow> (Inl ProjectNotIndexed, srv))"


section \<open>The server's Reranker: hybrid score\<close>

fun list_min :: "real list \<Rightarrow> real" where
  "list_min [] = 0"
| "list_min [x] = x"
| "list_min (x # xs) = min x (list_min xs)"

fun list_max :: "real list \<Rightarrow> real" where
  "list_max [] = 0"
| "list_max [x] = x"
| "list_max (x # xs) = max x (list_max xs)"

text \<open>
  Modelled from the spec: the Reranker (\<open>reranker.py\<close> is not under \<open>src/\<close>). Within a
  batch the vector scores and the BM25 scores are each min-max normalised, and the hybrid
  score is 0.4 times the normalised vector score plus 0.6 times the normalised BM25 score.
  The spec does not say what a batch whose scores are all equal is normalised to; that value
  is the parameter \<open>flat\<close>. Scores are real numbers here, not floating-point numbers.
\<close>

definition minmax :: "real \<Rightarrow> real list \<Rightarrow> real \<Rightarrow> real" where
  "minmax flat xs x =
     (let lo = list_min xs; hi = list_max xs
      in if hi = lo then flat else (x - lo) / (hi - lo))"

definition vector_weight :: real where
  "vector_weight = 4 / 10"

definition bm25_weight :: real where
  "bm25_weight = 6 / 10"

definition hybrid_score :: "real \<Rightarrow> candidate list \<Rightarrow> candidate \<Rightarrow> real" where
  "hybrid_score flat batch c =
     vector_weight * minmax flat (map vector_score batch) (vector_score c)
     + bm25_weight * minmax flat (map bm25_score batch) (bm25_score c)"






section \<open>The server's Generator: the prompt\<close>

text \<open>
  Modelled from the spec: the prompt of the Generator (\<open>generator.py\<close> is not under
  \<open>src/\<close>). The system instruction, then the chunks, numbered from 1, each as its header
  and its content cut at the preview length, then the question as it is.
\<close>

definition preview_length :: nat where
  "preview_length = 1500"

definition chunk_header :: "nat \<Rightarrow> chunk \<Rightarrow> string" where
  "chunk_header i c =
     ''--- file '' @ show_nat i @ '': '' @ chunk_path c @ '' (module: '' @ chunk_module c @ '') ---''"

definition render_chunk :: "nat \<Rightarrow> chunk \<Rightarrow> string" where
  "render_chunk i c = chunk_header i c @ take preview_length (chunk_content c)"

fun render_chunks :: "nat \<Rightarrow> chunk list \<Rightarrow> string" where
  "render_chunks i [] = []"
| "render_chunks i (c # cs) = render_chunk i c @ render_chunks (Suc i) cs"

definition build_prompt :: "string \<Rightarrow> chunk list \<Rightarrow> string \<Rightarrow> string" where
  "build_prompt system_instruction chunks question =
     system_instruction @ render_chunks 1 chunks @ question"


section \<open>Answer events\<close>

text \<open>The lines that \<open>sendMessage\<close> acts on: those with an event of one of its three types.\<close>

definition answer_event :: "json_parse \<Rightarrow> string \<Rightarrow> bool" where
  "answer_event parse l =
     (event_type parse l = Some (JStr ''sources'') \<or> event_type parse l = Some (JStr ''content'')
      \<or> event_type parse l = Some (JStr ''done''))"


section \<open>Example data\<close>

definition conv_a :: conversation where
  "conv_a = \<lparr>conv_id = ''1'', conv_title = ''first'', conv_messages = [], conv_createdAt = ''t1''\<rparr>"

definition conv_b :: conversation where
  "conv_b = \<lparr>conv_id = ''2'', conv_title = ''second'', conv_messages = [], conv_createdAt = ''t2''\<rparr>"

definition chat_example :: chat_state where
  "chat_example = \<lparr>conversationsByProject = [''p'' \<mapsto> [conv_a, conv_b], ''q'' \<mapsto> [conv_a]],
                    currentConversationId = Some ''1''\<rparr>"

text \<open>
  \<open>JSON.parse\<close> on the payloads of the example streams below. Every other text the examples
  hand to it is a fragment of one of these payloads, on which \<open>JSON.parse\<close> throws.
\<close>

definition example_parse :: json_parse where
  "example_parse = map_of
     [(''{\"type\":\"sources\",\"data\":[]}'', JObj [(''type'', JStr ''sources''), (''data'', JArr [])]),
      (''{\"type\":\"content\",\"data\":\"a\"}'', JObj [(''type'', JStr ''content''), (''data'', JStr ''a'')]),
      (''{\"type\":\"content\",\"data\":\"b\"}'', JObj [(''type'', JStr ''content''), (''data'', JStr ''b'')]),
      (''{\"type\":\"content\",\"data\":\"c\"}'', JObj [(''type'', JStr ''content''), (''data'', JStr ''c'')]),
      (''{\"type\":\"done\"}'', JObj [(''type'', JStr ''done'')]),
      (''{\"type\":\"complete\",\"data\":{\"file_count\":2,\"index_size_bytes\":10}}'',
         JObj [(''type'', JStr ''complete''),
               (''data'', JObj [(''file_count'', JNum 2), (''index_size_bytes'', JNum 10)])]),
      (''{\"type\":\"error\",\"data\":{\"message\":\"no files\"}}'',
         JObj [(''type'', JStr ''error''), (''data'', JObj [(''message'', JStr ''no files'')])])]"

definition sse :: "string \<Rightarrow> string" where
  "sse payload = ''data: '' @ payload @ [newline, newline]"

definition chat_idle :: streaming_chat where
  "chat_idle = \<lparr>isStreaming = False, streamingContent = [], streamingSources = JArr [],
                 error = None, content = [], sources = JArr [], completed = []\<rparr>"

definition three_frames :: "(bool \<times> string) list" where
  "three_frames =
     [(False, sse ''{\"type\":\"sources\",\"data\":[]}''),
      (False, sse ''{\"type\":\"content\",\"data\":\"a\"}''),
      (False, sse ''{\"type\":\"content\",\"data\":\"b\"}''),
      (False, sse ''{\"type\":\"content\",\"data\":\"c\"}'')]"

definition answer_stream :: string where
  "answer_stream =
     sse ''{\"type\":\"sources\",\"data\":[]}'' @
     sse ''{\"type\":\"content\",\"data\":\"a\"}'' @
     sse ''{\"type\":\"content\",\"data\":\"b\"}'' @
     sse ''{\"type\":\"done\"}''"



definition project_a :: project where
  "project_a = \<lparr>proj_id = ''p1'', proj_name = ''shop'', proj_status = Indexed,
                 file_count = JNum 2, index_size_bytes = JNum 10\<rparr>"

definition project_b :: project where
  "project_b = \<lparr>proj_id = ''p2'', proj_name = ''blog'', proj_status = Idle,
                 file_count = JNum 0, index_size_bytes = JNum 0\<rparr>"

definition chunk_login :: chunk where
  "chunk_login = \<lparr>chunk_path = ''a/Login.jsx'', chunk_module = ''a'', chunk_content = ''login handler''\<rparr>"

definition chunk_logout :: chunk where
  "chunk_logout = \<lparr>chunk_path = ''b/Logout.jsx'', chunk_module = ''b'', chunk_content = ''logout handler''\<rparr>"

definition server_example :: server where
  "server_example = \<lparr>srv_status = [''p1'' \<mapsto> Indexed, ''p2'' \<mapsto> Idle],
                      srv_collection = [''p1'' \<mapsto> [chunk_login, chunk_logout]],
                      embed_calls = []\<rparr>"

definition cand_login :: candidate where
  "cand_login = \<lparr>cand_chunk = chunk_login, vector_score = 9 / 10, bm25_score = 6\<rparr>"

definition cand_logout :: candidate where
  "cand_logout = \<lparr>cand_chunk = chunk_logout, vector_score = 5 / 10, bm25_score = 2\<rparr>"

definition frames_in_two_reads :: "(bool \<times> string) list" where
  "frames_in_two_reads =
     [(False, sse ''{\"type\":\"sources\",\"data\":[]}'' @ sse ''{\"type\":\"content\",\"data\":\"a\"}''),
      (False, sse ''{\"type\":\"content\",\"data\":\"b\"}'' @ sse ''{\"type\":\"content\",\"data\":\"c\"}'')]"



section \<open>ChatContext: titles and deletion\<close>

lemma trim_title_short: "length t \<le> 30 \<Longrightarrow> trim_title t = t"
  by (simp add: trim_title_def)

lemma trim_title_long:
  "length t > 30 \<Longrightarrow> trim_title t = take 30 t @ ''...'' \<and> length (trim_title t) = 33"
  by (simp add: trim_title_def)

lemma deleteConversation_unselected:
  "\<not> truthy sel \<Longrightarrow> deleteConversation sel st cid = st"
  by (cases sel) (simp_all add: deleteConversation_def)

text \<open>
  Claim C10. \<open>updateConversationTitle\<close> stores the title as given when it has at most 30
  characters and otherwise its first 30 characters followed by \<open>...\<close> (33 characters);
  in the selected project's list exactly the conversations whose id is the target id get the
  new title and nothing else of them changes, the lists of the other projects and the current
  conversation id are untouched; and the call changes nothing when no project is selected or
  neither the given id nor the current conversation id is set.
\<close>

theorem updateConversationTitle_spec:
  assumes "st' = updateConversationTitle sel st t cid"
      and "target = js_or cid (currentConversationId st)"
  shows "(\<not> truthy sel \<or> \<not> truthy target \<longrightarrow> st' = st)
       \<and> (\<forall>pid tid. sel = Some pid \<and> truthy sel \<and> target = Some tid \<and> truthy target \<longrightarrow>
            conversations_of (conversationsByProject st') pid =
              map (\<lambda>c. if conv_id c = tid
                        then c\<lparr>conv_title := (if length t \<le> 30 then t else take 30 t @ ''...'')\<rparr>
                        else c)
                  (conversations_of (conversationsByProject st) pid)
          \<and> (length t > 30 \<longrightarrow> length (take 30 t @ ''...'') = 33)
          \<and> (\<forall>q. q \<noteq> pid \<longrightarrow> conversationsByProject st' q = conversationsByProject st q)
          \<and> currentConversationId st' = currentConversationId st)"
  using assms
  by (auto simp: updateConversationTitle_def Let_def conversations_of_def trim_title_def
           split: option.splits)

theorem updateConversationTitle_spec_witness:
  "truthy (Some ''p'') \<and> truthy (js_or None (currentConversationId chat_example))
   \<and> conversations_of (conversationsByProject
        (updateConversationTitle (Some ''p'') chat_example
           ''0123456789012345678901234567890123456789'' None)) ''p''
      = [conv_a\<lparr>conv_title := ''012345678901234567890123456789...''\<rparr>, conv_b]
   \<and> conversationsByProject
        (updateConversationTitle (Some ''p'') chat_example
           ''0123456789012345678901234567890123456789'' None) ''q'' = Some [conv_a]
   \<and> updateConversationTitle None chat_example ''x'' None = chat_example"
proof -
  have tgt: "Some ''1'' = js_or None (currentConversationId chat_example)"
    by (simp add: js_or_def chat_example_def)
  have old: "conversations_of (conversationsByProject chat_example) ''p'' = [conv_a, conv_b]"
    by (simp add: chat_example_def conversations_of_def)
  have oq: "conversationsByProject chat_example ''q'' = Some [conv_a]"
    by (simp add: chat_example_def)
  have ids: "conv_id conv_a = ''1''" "conv_id conv_b = ''2''"
    by (simp_all add: conv_a_def conv_b_def)
  note A = updateConversationTitle_spec [OF refl tgt,
             of "Some ''p''" "''0123456789012345678901234567890123456789''"]
  note B = updateConversationTitle_spec [OF refl tgt, of None "''x''"]
  have hyp: "Some ''p'' = Some ''p'' \<and> truthy (Some ''p'')
             \<and> Some ''1'' = Some ''1'' \<and> truthy (Some ''1'')"
    by simp
  from A [THEN conjunct2, rule_format, OF hyp]
  have c1: "conversations_of (conversationsByProject
        (updateConversationTitle (Some ''p'') chat_example
           ''0123456789012345678901234567890123456789'' None)) ''p''
      = [conv_a\<lparr>conv_title := ''012345678901234567890123456789...''\<rparr>, conv_b]"
   and c2: "conversationsByProject
        (updateConversationTitle (Some ''p'') chat_example
           ''0123456789012345678901234567890123456789'' None) ''q'' = Some [conv_a]"
    by (simp_all add: old oq ids)
  from B [THEN conjunct1]
  have c3: "updateConversationTitle None chat_example ''x'' None = chat_example"
    by simp
  have t2: "truthy (js_or None (currentConversationId chat_example))"
    by (simp flip: tgt)
  from c1 c2 c3 t2 show ?thesis by simp
qed

text \<open>
  Claim C9. With a project selected, \<open>deleteConversation\<close> leaves in that project's list
  exactly the conversations whose id differs from the given one, in their order and unchanged;
  the lists of all other projects are unchanged; and the current conversation id becomes
  \<open>null\<close> when it equals the deleted id and is unchanged otherwise.
\<close>

theorem deleteConversation_frame:
  assumes "sel = Some pid" and "truthy sel"
      and "st' = deleteConversation sel st cid"
  shows "conversations_of (conversationsByProject st') pid =
           filter (\<lambda>c. conv_id c \<noteq> cid) (conversations_of (conversationsByProject st) pid)
       \<and> (\<forall>q. q \<noteq> pid \<longrightarrow> conversationsByProject st' q = conversationsByProject st q)
       \<and> (currentConversationId st' = None \<and> currentConversationId st \<noteq> None
            \<longleftrightarrow> currentConversationId st = Some cid)
       \<and> (currentConversationId st \<noteq> Some cid \<longrightarrow>
            currentConversationId st' = currentConversationId st)"
  using assms
  by (auto simp: deleteConversation_def Let_def conversations_of_def)

theorem deleteConversation_frame_witness:
  "truthy (Some ''p'')
   \<and> conversations_of (conversationsByProject (deleteConversation (Some ''p'') chat_example ''1'')) ''p''
       = [conv_b]
   \<and> conversationsByProject (deleteConversation (Some ''p'') chat_example ''1'') ''q'' = Some [conv_a]
   \<and> currentConversationId (deleteConversation (Some ''p'') chat_example ''1'') = None
   \<and> currentConversationId (deleteConversation (Some ''p'') chat_example ''2'') = Some ''1''"
  using deleteConversation_frame
          [of "Some ''p''" "''p''" "deleteConversation (Some ''p'') chat_example ''1''" chat_example "''1''"]
        deleteConversation_frame
          [of "Some ''p''" "''p''" "deleteConversation (Some ''p'') chat_example ''2''" chat_example "''2''"]
  by (simp add: chat_example_def conv_a_def conv_b_def conversations_of_def)

section \<open>useAgentChat: the parse does not depend on how the stream is cut into chunks\<close>

lemma split_nl_nonempty: "split_nl s \<noteq> []"
  by (induction s) (auto split: list.splits)

lemma split_nl_no_newline: "newline \<notin> set s \<Longrightarrow> split_nl s = [s]"
  by (induction s) auto

lemma last_split_nl_no_newline: "newline \<notin> set (last (split_nl s))"
  by (induction s) (auto split: list.splits simp: split_nl_nonempty)

lemma split_nl_append:
  "split_nl (x @ y) = butlast (split_nl x) @ split_nl (last (split_nl x) @ y)"
proof (induction x)
  case Nil
  show ?case by simp
next
  case (Cons c x)
  show ?case
  proof (cases "c = newline")
    case True
    with Cons show ?thesis by (simp add: split_nl_nonempty)
  next
    case False
    obtain l ls where sx: "split_nl x = l # ls"
      using split_nl_nonempty [of x] by (cases "split_nl x") auto
    show ?thesis
    proof (cases ls)
      case Nil
      with sx Cons False show ?thesis by simp
    next
      case (Cons l' ls')
      with sx Cons.IH False show ?thesis by simp
    qed
  qed
qed

lemma runAgent_line_buffer:
  "runAgent_line parse (st\<lparr>buffer := b\<rparr>) line = (runAgent_line parse st line)\<lparr>buffer := b\<rparr>"
  by (simp add: runAgent_line_def Let_def split: option.splits)

lemma foldl_runAgent_line_buffer:
  "foldl (runAgent_line parse) (st\<lparr>buffer := b\<rparr>) ls
     = (foldl (runAgent_line parse) st ls)\<lparr>buffer := b\<rparr>"
  by (induction ls arbitrary: st) (simp_all add: runAgent_line_buffer)

lemma runAgent_chunk_eq:
  "runAgent_chunk parse st chunk =
     (foldl (runAgent_line parse) st (butlast (split_nl (buffer st @ chunk))))
       \<lparr>buffer := last (split_nl (buffer st @ chunk))\<rparr>"
  by (simp add: runAgent_chunk_def Let_def foldl_runAgent_line_buffer)

lemma runAgent_chunk_append:
  "runAgent_chunk parse (runAgent_chunk parse st c1) c2 = runAgent_chunk parse st (c1 @ c2)"
proof -
  let ?L1 = "split_nl (buffer st @ c1)"
  let ?L2 = "split_nl (last ?L1 @ c2)"
  have L: "split_nl (buffer st @ c1 @ c2) = butlast ?L1 @ ?L2"
    using split_nl_append [of "buffer st @ c1" c2] by simp
  have bl: "butlast (butlast ?L1 @ ?L2) = butlast ?L1 @ butlast ?L2"
    by (simp add: butlast_append split_nl_nonempty)
  have la: "last (butlast ?L1 @ ?L2) = last ?L2"
    by (simp add: split_nl_nonempty)
  show ?thesis
    by (simp add: runAgent_chunk_eq L bl la foldl_runAgent_line_buffer)
qed

lemma runAgent_chunk_empty:
  "newline \<notin> set (buffer st) \<Longrightarrow> runAgent_chunk parse st [] = st"
  by (simp add: runAgent_chunk_def split_nl_no_newline)

lemma buffer_runAgent_chunk: "newline \<notin> set (buffer (runAgent_chunk parse st c))"
  by (simp add: runAgent_chunk_eq last_split_nl_no_newline)

lemma runAgent_reads_concat:
  "newline \<notin> set (buffer st) \<Longrightarrow>
     runAgent_reads parse st chunks e = runAgent_reads parse st [concat chunks] e"
proof (induction chunks arbitrary: st)
  case Nil
  then show ?case by (simp add: runAgent_chunk_empty)
next
  case (Cons c rest)
  have "runAgent_reads parse st (c # rest) e
          = runAgent_reads parse (runAgent_chunk parse st c) [concat rest] e"
    using Cons.IH [of "runAgent_chunk parse st c"] by (simp add: buffer_runAgent_chunk)
  then show ?case by (simp add: runAgent_chunk_append)
qed

lemma runAgent_reads_single:
  "fst (runAgent_reads parse st [c] e) = runAgent_chunk parse st c"
  by (cases e) simp_all

text \<open>
  Claim C8. However the bytes of the agent stream are cut into read chunks, \<open>runAgent\<close>
  ends in the same state as on the uncut stream delivered as one chunk; the incomplete last
  line of a chunk is kept in the buffer and prepended to the next chunk, so that the lines
  handled are exactly the complete lines of the whole stream, each once and in order (the
  fold over all pieces of the split stream but the last), and the buffer ends as the
  unfinished last piece. The chunks are the decoded texts; the streaming decoder holds back
  the bytes of a character cut by a chunk boundary, so every way of cutting the bytes is
  one way of cutting the text.
\<close>

theorem runAgent_rechunk:
  "runAgent parse st (Response ok detail status chunks e)
     = runAgent parse st (Response ok detail status [concat chunks] e)
   \<and> fst (runAgent_reads parse (runAgent_started st) chunks e)
     = (foldl (runAgent_line parse) (runAgent_started st) (butlast (split_nl (concat chunks))))
         \<lparr>buffer := last (split_nl (concat chunks))\<rparr>"
proof
  have b: "newline \<notin> set (buffer (runAgent_started st))"
    by (simp add: runAgent_started_def)
  show "runAgent parse st (Response ok detail status chunks e)
          = runAgent parse st (Response ok detail status [concat chunks] e)"
    using runAgent_reads_concat [OF b, of parse chunks e]
    by (simp add: runAgent_def runAgent_try_def)
  have "fst (runAgent_reads parse (runAgent_started st) chunks e)
          = runAgent_chunk parse (runAgent_started st) (concat chunks)"
    unfolding runAgent_reads_concat [OF b, of parse chunks e] by (rule runAgent_reads_single)
  also have "\<dots> = (foldl (runAgent_line parse) (runAgent_started st) (butlast (split_nl (concat chunks))))
         \<lparr>buffer := last (split_nl (concat chunks))\<rparr>"
    by (simp add: runAgent_chunk_eq runAgent_started_def)
  finally show "fst (runAgent_reads parse (runAgent_started st) chunks e)
     = (foldl (runAgent_line parse) (runAgent_started st) (butlast (split_nl (concat chunks))))
         \<lparr>buffer := last (split_nl (concat chunks))\<rparr>" .
qed

section \<open>Chunks that end at line ends\<close>

lemma split_nl_snoc_newline:
  "newline \<notin> set l \<Longrightarrow> split_nl (l @ [newline]) = [l, []]"
  by (induction l) auto

lemma last_split_nl_ends_line:
  assumes "ends_line c"
  shows "last (split_nl c) = []"
proof (cases "c = []")
  case True
  then show ?thesis by simp
next
  case False
  then have "butlast c @ [last c] = c" by simp
  with assms False have "c = butlast c @ [newline]" by (simp add: ends_line_def)
  then obtain x where c: "c = x @ [newline]" ..
  have "split_nl c = butlast (split_nl x) @ [last (split_nl x), []]"
    unfolding c using split_nl_append [of x "[newline]"]
    by (simp add: split_nl_snoc_newline last_split_nl_no_newline)
  then show ?thesis by simp
qed

lemma split_nl_ends_line:
  assumes "ends_line c"
  shows "split_nl c = butlast (split_nl c) @ [[]]"
    and "split_nl (c @ y) = butlast (split_nl c) @ split_nl y"
proof -
  from append_butlast_last_id [OF split_nl_nonempty, of c] last_split_nl_ends_line [OF assms]
  show "split_nl c = butlast (split_nl c) @ [[]]" by simp
  from split_nl_append [of c y] last_split_nl_ends_line [OF assms]
  show "split_nl (c @ y) = butlast (split_nl c) @ split_nl y" by simp
qed

lemma lines_of_whole_chunks:
  "list_all ends_line cs \<Longrightarrow>
     filter (\<lambda>l. l \<noteq> []) (concat (map split_nl cs))
       = filter (\<lambda>l. l \<noteq> []) (split_nl (concat cs))"
proof (induction cs)
  case Nil
  show ?case by simp
next
  case (Cons c cs)
  then have c: "ends_line c" and IH: "filter (\<lambda>l. l \<noteq> []) (concat (map split_nl cs))
       = filter (\<lambda>l. l \<noteq> []) (split_nl (concat cs))" by simp_all
  have "filter (\<lambda>l. l \<noteq> []) (split_nl c) = filter (\<lambda>l. l \<noteq> []) (butlast (split_nl c))"
    using arg_cong [OF split_nl_ends_line(1) [OF c], of "filter (\<lambda>l. l \<noteq> [])"] by simp
  with IH show ?case by (simp add: split_nl_ends_line(2) [OF c])
qed

lemma foldl_skip_empty:
  assumes "\<And>s. f s [] = s"
  shows "foldl f s ls = foldl f s (filter (\<lambda>l. l \<noteq> []) ls)"
  by (induction ls arbitrary: s) (simp_all add: assms)



lemma map_filter_append:
  "List.map_filter g (xs @ ys) = List.map_filter g xs @ List.map_filter g ys"
  by (induction xs) (simp_all split: option.splits)

section \<open>useStreamingChat: what a stream leaves behind\<close>

lemma sendMessage_reads_fold:
  "fst (sendMessage_reads parse st reads e)
     = foldl (sendMessage_line parse) st (lines_handled reads)"
proof (induction reads arbitrary: st)
  case Nil
  show ?case by (cases e) (simp_all add: lines_handled_def)
next
  case (Cons r reads)
  obtain a c where r: "r = (a, c)" by (cases r)
  show ?case
  proof (cases a)
    case True
    with r show ?thesis by (simp add: lines_handled_def)
  next
    case False
    with r Cons.IH [of "sendMessage_chunk parse st c"] show ?thesis
      by (simp add: lines_handled_def sendMessage_chunk_def)
  qed
qed

lemma sendMessage_line_content:
  "content (sendMessage_line parse st l) = content st @ content_delta parse l"
  by (simp add: sendMessage_line_def content_delta_def event_type_def event_data_def Let_def
           split: option.splits)

lemma sendMessage_line_streamingContent:
  "streamingContent st = content st \<Longrightarrow>
     streamingContent (sendMessage_line parse st l) = content (sendMessage_line parse st l)"
  by (simp add: sendMessage_line_def Let_def split: option.splits)

lemma sendMessage_line_completed:
  "completed (sendMessage_line parse st l) =
     (if event_type parse l = Some (JStr ''done'')
      then completed st @ [(content st, sources st)] else completed st)"
  by (simp add: sendMessage_line_def event_type_def Let_def split: option.splits)

lemma foldl_sendMessage_line_content:
  "content (foldl (sendMessage_line parse) st ls) = content st @ concat (map (content_delta parse) ls)"
  by (induction ls arbitrary: st) (simp_all add: sendMessage_line_content)

lemma foldl_sendMessage_line_streamingContent:
  "streamingContent st = content st \<Longrightarrow>
     streamingContent (foldl (sendMessage_line parse) st ls)
       = content (foldl (sendMessage_line parse) st ls)"
  by (induction ls arbitrary: st) (simp_all add: sendMessage_line_streamingContent)

lemma foldl_sendMessage_line_no_done:
  "\<forall>l \<in> set ls. event_type parse l \<noteq> Some (JStr ''done'') \<Longrightarrow>
     completed (foldl (sendMessage_line parse) st ls) = completed st"
  by (induction ls arbitrary: st) (simp_all add: sendMessage_line_completed)

lemma sendMessage_clears:
  "streamingContent (sendMessage parse st resp) = []
   \<and> streamingSources (sendMessage parse st resp) = JArr []
   \<and> \<not> isStreaming (sendMessage parse st resp)"
  by (simp add: sendMessage_def Let_def split: prod.splits option.splits)

lemma sendMessage_completed:
  "completed (sendMessage parse st (Response True detail status reads e))
     = completed (fst (sendMessage_reads parse (sendMessage_started st) reads e))"
  by (simp add: sendMessage_def sendMessage_try_def Let_def split: prod.splits option.splits)

lemma sendMessage_line_empty: "sendMessage_line parse st [] = st"
  by (simp add: sendMessage_line_def)

lemma lines_handled_whole:
  assumes "list_all (\<lambda>r. ends_line (snd r)) reads"
  shows "filter (\<lambda>l. l \<noteq> []) (lines_handled reads)
           = filter (\<lambda>l. l \<noteq> []) (split_nl (text_delivered reads))"
proof -
  let ?cs = "map snd (takeWhile (\<lambda>r. \<not> fst r) reads)"
  from assms have "list_all ends_line ?cs"
    by (auto simp: list_all_iff dest: set_takeWhileD)
  from lines_of_whole_chunks [OF this] show ?thesis
    by (simp add: lines_handled_def text_delivered_def comp_def)
qed

lemma sendMessage_reads_stream:
  assumes "list_all (\<lambda>r. ends_line (snd r)) reads"
  shows "fst (sendMessage_reads parse st reads e)
           = foldl (sendMessage_line parse) st (split_nl (text_delivered reads))"
proof -
  have "fst (sendMessage_reads parse st reads e)
          = foldl (sendMessage_line parse) st (filter (\<lambda>l. l \<noteq> []) (lines_handled reads))"
    unfolding sendMessage_reads_fold
    by (rule foldl_skip_empty) (rule sendMessage_line_empty)
  also have "\<dots> = foldl (sendMessage_line parse) st
                      (filter (\<lambda>l. l \<noteq> []) (split_nl (text_delivered reads)))"
    by (simp only: lines_handled_whole [OF assms])
  also have "\<dots> = foldl (sendMessage_line parse) st (split_nl (text_delivered reads))"
    by (rule foldl_skip_empty [symmetric]) (rule sendMessage_line_empty)
  finally show ?thesis .
qed

text \<open>
  Claim C3, on the code: \<open>sendMessage\<close> splits every chunk into lines by itself and
  keeps nothing of an unfinished line for the next chunk. The same well-formed stream (one
  \<open>sources\<close> event, the content events \<open>a\<close> and \<open>b\<close>, one \<open>done\<close> event)
  completes once with the answer \<open>ab\<close> when it arrives as one chunk, completes with the
  answer \<open>a\<close> when a chunk boundary falls inside the second content line, and never
  completes when a chunk boundary falls inside the \<open>data: \<close> prefix of the \<open>done\<close> line.
\<close>

theorem sendMessage_split_line:
  "completed (sendMessage example_parse chat_idle
      (Response True None 200 [(False, answer_stream)] EndOfStream)) = [(''ab'', JArr [])]
   \<and> completed (sendMessage example_parse chat_idle
      (Response True None 200 [(False, take 90 answer_stream), (False, drop 90 answer_stream)]
         EndOfStream)) = [(''a'', JArr [])]
   \<and> completed (sendMessage example_parse chat_idle
      (Response True None 200 [(False, take 112 answer_stream), (False, drop 112 answer_stream)]
         EndOfStream)) = []"
  by code_simp

text \<open>
  Claim C4 as stated fails: after three content frames and a rejected read the streaming
  content, which was \<open>abc\<close> while the stream ran, is no longer \<open>abc\<close>.
\<close>

theorem sendMessage_interrupted_counterexample:
  "streamingContent (fst (sendMessage_reads example_parse (sendMessage_started chat_idle) three_frames
       (ReadRejected ''TypeError'' ''network error''))) = ''abc''
   \<and> streamingContent (sendMessage example_parse chat_idle
        (Response True None 200 three_frames (ReadRejected ''TypeError'' ''network error''))) \<noteq> ''abc''"
  by code_simp

text \<open>
  Claim C4, amended. Take a stream whose reads each end at a line end and which ends, fails
  or is cancelled before a \<open>done\<close> event is in the text delivered. Up to that point the
  streaming content is the concatenation, in the order of the stream, of the deltas of the
  content events in the text delivered; \<open>onComplete\<close> is not called for the attempt; and
  when \<open>sendMessage\<close> returns, the hook has cleared the streaming content and sources
  and is no longer streaming.
\<close>

theorem sendMessage_interrupted:
  assumes "list_all (\<lambda>r. ends_line (snd r)) reads"
      and "\<forall>l \<in> set (split_nl (text_delivered reads)). event_type parse l \<noteq> Some (JStr ''done'')"
  shows "streamingContent (fst (sendMessage_reads parse (sendMessage_started st) reads e))
           = concat (map (content_delta parse) (split_nl (text_delivered reads)))
       \<and> completed (sendMessage parse st (Response True detail status reads e)) = []
       \<and> streamingContent (sendMessage parse st (Response True detail status reads e)) = []
       \<and> streamingSources (sendMessage parse st (Response True detail status reads e)) = JArr []
       \<and> \<not> isStreaming (sendMessage parse st (Response True detail status reads e))"
proof -
  let ?s = "sendMessage_started st"
  let ?ls = "split_nl (text_delivered reads)"
  note fold = sendMessage_reads_stream [OF assms(1), of parse ?s e]
  have eq: "streamingContent ?s = content ?s" by (simp add: sendMessage_started_def)
  have "streamingContent (fst (sendMessage_reads parse ?s reads e))
          = content ?s @ concat (map (content_delta parse) ?ls)"
    by (simp add: fold foldl_sendMessage_line_streamingContent [OF eq]
                  foldl_sendMessage_line_content)
  then have a: "streamingContent (fst (sendMessage_reads parse ?s reads e))
                  = concat (map (content_delta parse) ?ls)"
    by (simp add: sendMessage_started_def)
  have "completed (fst (sendMessage_reads parse ?s reads e)) = completed ?s"
    by (simp add: fold foldl_sendMessage_line_no_done [OF assms(2)])
  then have b: "completed (sendMessage parse st (Response True detail status reads e)) = []"
    by (simp add: sendMessage_completed sendMessage_started_def)
  from a b sendMessage_clears [of parse st "Response True detail status reads e"]
  show ?thesis by simp
qed

theorem sendMessage_interrupted_witness:
  "list_all (\<lambda>r. ends_line (snd r)) frames_in_two_reads
   \<and> list_all (\<lambda>l. event_type example_parse l \<noteq> Some (JStr ''done''))
        (split_nl (text_delivered frames_in_two_reads))
   \<and> streamingContent (fst (sendMessage_reads example_parse (sendMessage_started chat_idle)
        frames_in_two_reads (ReadRejected ''TypeError'' ''network error''))) = ''abc''
   \<and> completed (sendMessage example_parse chat_idle
        (Response True None 200 frames_in_two_reads (ReadRejected ''TypeError'' ''network error''))) = []
   \<and> streamingContent (sendMessage example_parse chat_idle
        (Response True None 200 frames_in_two_reads (ReadRejected ''TypeError'' ''network error''))) = []"
proof -
  have w: "list_all (\<lambda>r. ends_line (snd r)) frames_in_two_reads"
    by code_simp
  have h: "\<forall>l \<in> set (split_nl (text_delivered frames_in_two_reads)).
             event_type example_parse l \<noteq> Some (JStr ''done'')"
    by code_simp
  have d: "concat (map (content_delta example_parse) (split_nl (text_delivered frames_in_two_reads)))
             = ''abc''"
    by code_simp
  from sendMessage_interrupted [OF w h, of chat_idle "ReadRejected ''TypeError'' ''network error''" None 200]
       w h d
  show ?thesis by (simp add: list_all_iff)
qed

section \<open>TrainingPage: the index status under startIndexing\<close>













lemma updateProjectInList_status:
  "map proj_id (updateProjectInList ps pid u) = map proj_id ps"
  by (simp add: updateProjectInList_def merge_updates_def)

lemma status_trace_nonempty: "status_trace s us \<noteq> []"
  by (cases us) simp_all

lemma last_status_trace_Cons:
  "last (status_trace s (u # us))
     = last (status_trace (case upd_status u of None \<Rightarrow> s | Some s' \<Rightarrow> s') us)"
  by (simp add: status_trace_nonempty)

lemma updateProjectInList_nth:
  "i < length ps \<Longrightarrow>
     updateProjectInList ps pid u ! i
       = (if proj_id (ps ! i) = pid then merge_updates (ps ! i) u else ps ! i)"
  by (simp add: updateProjectInList_def)

lemma merge_updates_fields:
  "proj_id (merge_updates p u) = proj_id p
   \<and> proj_status (merge_updates p u) = (case upd_status u of None \<Rightarrow> proj_status p | Some s \<Rightarrow> s)"
  by (simp add: merge_updates_def)

lemma foldl_updateProjectInList_nth:
  "i < length ps \<Longrightarrow>
   length (foldl (\<lambda>ps u. updateProjectInList ps pid u) ps us) = length ps
   \<and> (proj_id (ps ! i) = pid \<longrightarrow>
        proj_status (foldl (\<lambda>ps u. updateProjectInList ps pid u) ps us ! i)
          = last (status_trace (proj_status (ps ! i)) us))
   \<and> (proj_id (ps ! i) \<noteq> pid \<longrightarrow>
        foldl (\<lambda>ps u. updateProjectInList ps pid u) ps us ! i = ps ! i)"
proof (induction us arbitrary: ps)
  case Nil
  then show ?case by simp
next
  case (Cons u us)
  let ?ps = "updateProjectInList ps pid u"
  have len: "length ?ps = length ps" by (simp add: updateProjectInList_def)
  with Cons.prems have l: "i < length ?ps" by simp
  note IH = Cons.IH [OF l]
  note nth = updateProjectInList_nth [OF Cons.prems, of pid u]
  show ?case
  proof (cases "proj_id (ps ! i) = pid")
    case True
    with nth have e: "?ps ! i = merge_updates (ps ! i) u" by simp
    with True have "proj_id (?ps ! i) = pid" by (simp add: merge_updates_fields)
    with IH e True len show ?thesis
      by (simp add: merge_updates_fields last_status_trace_Cons del: status_trace.simps)
  next
    case False
    with nth have e: "?ps ! i = ps ! i" by simp
    with IH False len show ?thesis by simp
  qed
qed


lemma startIndexing_project_status:
  assumes "i < length projects"
  shows "length (startIndexing parse projects pid resp) = length projects
       \<and> (proj_id (projects ! i) = pid \<longrightarrow>
            proj_status (startIndexing parse projects pid resp ! i)
              = last (status_trace (proj_status (projects ! i)) (startIndexing_updates parse resp)))
       \<and> (proj_id (projects ! i) \<noteq> pid \<longrightarrow>
            startIndexing parse projects pid resp ! i = projects ! i)"
  unfolding startIndexing_def by (rule foldl_updateProjectInList_nth [OF assms])




section \<open>Asking: retrieval breadth and indexed projects\<close>

lemma askStream_default_top_k:
  "req_top_k (askStream projectId question None) = 50
   \<and> req_top_k (sendMessage_request projectId question) = 50
   \<and> req_top_k (askStream projectId question (Some k)) = k
   \<and> req_project_id (sendMessage_request projectId question) = projectId
   \<and> req_question (sendMessage_request projectId question) = question"
  by (simp add: askStream_def sendMessage_request_def)

lemma find_Some_status:
  "find P xs = Some x \<Longrightarrow> x \<in> set xs \<and> P x"
  by (induction xs) (auto split: if_splits)

lemma handleSend_Some:
  assumes "handleSend projects sel question input = Some req"
  shows "canSend projects sel \<and> sel = Some (req_project_id req) \<and> req_question req \<noteq> []
         \<and> req_top_k req = 50"
  using assms
  by (auto simp: handleSend_def Let_def sendMessage_request_def askStream_def
           split: if_splits option.splits)

lemma canSend_indexed:
  assumes "canSend projects sel"
  shows "\<exists>p. selectedProject projects sel = Some p \<and> proj_status p = Indexed
             \<and> sel = Some (proj_id p) \<and> p \<in> set (indexedProjects projects)"
  using assms
  by (auto simp: canSend_def selectedProject_def indexedProjects_def
           split: option.splits dest: find_Some_status)

lemma retrieve_not_indexed:
  assumes "srv_status srv (req_project_id req) = Some Idle"
  shows "retrieve embedding similarity srv req = (Inl ProjectNotIndexed, srv)"
  using assms by (simp add: retrieve_def split: option.splits)

text \<open>
  Claim C6. The selector offers exactly the ids of the projects whose status is
  \<open>indexed\<close>; \<open>handleSend\<close> issues no request unless \<open>canSend\<close> holds, and a
  request it issues is for the selected project, whose status is \<open>indexed\<close>; and on the
  server a request against a project whose status is \<open>idle\<close> fails with
  \<open>ProjectNotIndexed\<close> without a call of the embedding service.
\<close>

theorem ask_only_indexed:
  "set (selector_options projects) = {proj_id p | p. p \<in> set projects \<and> proj_status p = Indexed}
   \<and> (\<not> canSend projects sel \<longrightarrow> handleSend projects sel question input = None)
   \<and> (handleSend projects sel question input = Some req \<longrightarrow>
        (\<exists>p. selectedProject projects sel = Some p \<and> proj_id p = req_project_id req
              \<and> proj_status p = Indexed))
   \<and> (srv_status srv (req_project_id r) = Some Idle \<longrightarrow>
        fst (retrieve embedding similarity srv r) = Inl ProjectNotIndexed
        \<and> embed_calls (snd (retrieve embedding similarity srv r)) = embed_calls srv)"
proof (intro conjI impI)
  show "set (selector_options projects) = {proj_id p | p. p \<in> set projects \<and> proj_status p = Indexed}"
    by (auto simp: selector_options_def indexedProjects_def)
next
  assume "\<not> canSend projects sel"
  then show "handleSend projects sel question input = None"
    by (simp add: handleSend_def Let_def)
next
  assume h: "handleSend projects sel question input = Some req"
  from handleSend_Some [OF h] canSend_indexed [of projects sel]
  show "\<exists>p. selectedProject projects sel = Some p \<and> proj_id p = req_project_id req
              \<and> proj_status p = Indexed"
    by auto
next
  assume "srv_status srv (req_project_id r) = Some Idle"
  then show "fst (retrieve embedding similarity srv r) = Inl ProjectNotIndexed"
    by (simp add: retrieve_not_indexed)
next
  assume "srv_status srv (req_project_id r) = Some Idle"
  then show "embed_calls (snd (retrieve embedding similarity srv r)) = embed_calls srv"
    by (simp add: retrieve_not_indexed)
qed

theorem ask_only_indexed_witness:
  "selector_options [project_a, project_b] = [''p1'']
   \<and> handleSend [project_a, project_b] (Some ''p1'') None '' find the login code ''
       = Some \<lparr>req_project_id = ''p1'', req_question = ''find the login code'', req_top_k = 50\<rparr>
   \<and> selectedProject [project_a, project_b] (Some ''p1'') = Some project_a
   \<and> proj_status project_a = Indexed
   \<and> handleSend [project_a, project_b] (Some ''p2'') None '' find the login code '' = None
   \<and> srv_status server_example ''p2'' = Some Idle
   \<and> fst (retrieve (\<lambda>q. Some (0::nat)) (\<lambda>v c. 0) server_example
             (askStream ''p2'' ''find the login code'' None)) = Inl ProjectNotIndexed
   \<and> embed_calls (snd (retrieve (\<lambda>q. Some (0::nat)) (\<lambda>v c. 0) server_example
             (askStream ''p2'' ''find the login code'' None))) = []"
proof -
  let ?ps = "[project_a, project_b]"
  let ?r = "\<lparr>req_project_id = ''p1'', req_question = ''find the login code'', req_top_k = 50\<rparr>"
  have o: "selector_options ?ps = [''p1'']" by code_simp
  have h1: "handleSend ?ps (Some ''p1'') None '' find the login code '' = Some ?r"
    by code_simp
  have n2: "\<not> canSend ?ps (Some ''p2'')" by code_simp
  have sp: "selectedProject ?ps (Some ''p1'') = Some project_a" by code_simp
  have st: "proj_status project_a = Indexed" by code_simp
  have idle: "srv_status server_example (req_project_id (askStream ''p2'' ''find the login code'' None))
                = Some Idle"
    by (simp add: server_example_def askStream_def)
  have idle': "srv_status server_example ''p2'' = Some Idle"
    by (simp add: server_example_def)
  note A = ask_only_indexed [of ?ps "Some ''p2''" None "'' find the login code ''" ?r
             server_example "askStream ''p2'' ''find the login code'' None"
             "\<lambda>q. Some (0::nat)" "\<lambda>v c. 0"]
  from A n2 have h2: "handleSend ?ps (Some ''p2'') None '' find the login code '' = None"
    by blast
  from A idle
  have r: "fst (retrieve (\<lambda>q. Some (0::nat)) (\<lambda>v c. 0) server_example
                  (askStream ''p2'' ''find the login code'' None)) = Inl ProjectNotIndexed"
    and e: "embed_calls (snd (retrieve (\<lambda>q. Some (0::nat)) (\<lambda>v c. 0) server_example
                  (askStream ''p2'' ''find the login code'' None))) = embed_calls server_example"
    by blast+
  have ec: "embed_calls server_example = []" by (simp add: server_example_def)
  from o h1 sp st h2 idle' r e ec show ?thesis by simp
qed






section \<open>Reranker: the hybrid score\<close>

lemma list_min_le: "x \<in> set xs \<Longrightarrow> list_min xs \<le> x"
  by (induction xs rule: list_min.induct) auto

lemma list_max_ge: "x \<in> set xs \<Longrightarrow> x \<le> list_max xs"
  by (induction xs rule: list_max.induct) auto

lemma list_min_in: "xs \<noteq> [] \<Longrightarrow> list_min xs \<in> set xs"
  by (induction xs rule: list_min.induct) (auto simp: min_def)

lemma list_max_in: "xs \<noteq> [] \<Longrightarrow> list_max xs \<in> set xs"
  by (induction xs rule: list_max.induct) (auto simp: max_def)

lemma batch_min_max:
  assumes "batch \<noteq> []"
  shows "list_min (map vector_score batch) \<in> vector_score ` set batch
       \<and> list_max (map vector_score batch) \<in> vector_score ` set batch
       \<and> list_min (map bm25_score batch) \<in> bm25_score ` set batch
       \<and> list_max (map bm25_score batch) \<in> bm25_score ` set batch"
  using assms list_min_in [of "map vector_score batch"] list_max_in [of "map vector_score batch"]
        list_min_in [of "map bm25_score batch"] list_max_in [of "map bm25_score batch"]
  by simp

lemma minmax_bounds:
  assumes "x \<in> set xs" and "0 \<le> flat" and "flat \<le> 1"
  shows "0 \<le> minmax flat xs x \<and> minmax flat xs x \<le> 1"
proof (cases "list_max xs = list_min xs")
  case True
  with assms show ?thesis by (simp add: minmax_def)
next
  case False
  from assms(1) have lo: "list_min xs \<le> x" and hi: "x \<le> list_max xs"
    by (simp_all add: list_min_le list_max_ge)
  with False have pos: "0 < list_max xs - list_min xs" by simp
  from lo pos have a: "0 \<le> (x - list_min xs) / (list_max xs - list_min xs)" by simp
  from hi pos have b: "(x - list_min xs) / (list_max xs - list_min xs) \<le> 1" by simp
  from False a b show ?thesis by (simp add: minmax_def Let_def)
qed

text \<open>
  Claim C1. For every candidate of a batch, with \<open>nv\<close> and \<open>nb\<close> its vector score and its
  BM25 score min-max normalised within the batch, the hybrid score is
  \<open>0.4 * nv + 0.6 * nb\<close>; \<open>nv\<close>, \<open>nb\<close> and the hybrid score lie between 0 and 1; where the
  scores of the batch are not all equal, the normalised score is the distance to the least
  score of the batch over the spread of the batch; and within the batch the hybrid score is a
  function of the pair of scores: equal pairs get equal hybrid scores.
\<close>

theorem hybrid_score_spec:
  assumes "c \<in> set batch" and "0 \<le> flat" and "flat \<le> 1"
      and "nv = minmax flat (map vector_score batch) (vector_score c)"
      and "nb = minmax flat (map bm25_score batch) (bm25_score c)"
  shows "hybrid_score flat batch c = 0.4 * nv + 0.6 * nb
       \<and> 0 \<le> nv \<and> nv \<le> 1 \<and> 0 \<le> nb \<and> nb \<le> 1
       \<and> 0 \<le> hybrid_score flat batch c \<and> hybrid_score flat batch c \<le> 1
       \<and> (list_max (map vector_score batch) \<noteq> list_min (map vector_score batch) \<longrightarrow>
            nv = (vector_score c - list_min (map vector_score batch))
                   / (list_max (map vector_score batch) - list_min (map vector_score batch)))
       \<and> (list_max (map bm25_score batch) \<noteq> list_min (map bm25_score batch) \<longrightarrow>
            nb = (bm25_score c - list_min (map bm25_score batch))
                   / (list_max (map bm25_score batch) - list_min (map bm25_score batch)))
       \<and> (\<forall>d. vector_score d = vector_score c \<and> bm25_score d = bm25_score c \<longrightarrow>
            hybrid_score flat batch d = hybrid_score flat batch c)"
proof -
  from assms(1) have v: "vector_score c \<in> set (map vector_score batch)"
    and b: "bm25_score c \<in> set (map bm25_score batch)" by simp_all
  from minmax_bounds [OF v assms(2,3)] assms(4) have nv: "0 \<le> nv" "nv \<le> 1" by simp_all
  from minmax_bounds [OF b assms(2,3)] assms(5) have nb: "0 \<le> nb" "nb \<le> 1" by simp_all
  have h: "hybrid_score flat batch c = 0.4 * nv + 0.6 * nb"
    by (simp add: hybrid_score_def vector_weight_def bm25_weight_def assms(4,5))
  from nv nb have "0 \<le> 0.4 * nv + 0.6 * nb" by simp
  with h have h0: "0 \<le> hybrid_score flat batch c" by simp
  from nv nb have "0.4 * nv + 0.6 * nb \<le> 1" by simp
  with h have h1: "hybrid_score flat batch c \<le> 1" by simp
  have f: "\<forall>d. vector_score d = vector_score c \<and> bm25_score d = bm25_score c \<longrightarrow>
            hybrid_score flat batch d = hybrid_score flat batch c"
    by (simp add: hybrid_score_def)
  have e1: "list_max (map vector_score batch) \<noteq> list_min (map vector_score batch) \<longrightarrow>
            nv = (vector_score c - list_min (map vector_score batch))
                   / (list_max (map vector_score batch) - list_min (map vector_score batch))"
    unfolding assms(4) minmax_def Let_def by simp
  have e2: "list_max (map bm25_score batch) \<noteq> list_min (map bm25_score batch) \<longrightarrow>
            nb = (bm25_score c - list_min (map bm25_score batch))
                   / (list_max (map bm25_score batch) - list_min (map bm25_score batch))"
    unfolding assms(5) minmax_def Let_def by simp
  show ?thesis
    using h nv nb h0 h1 e1 e2 f by (intro conjI) assumption+
qed

theorem hybrid_score_spec_witness:
  "hybrid_score 0 [cand_login, cand_logout] cand_login = 1
   \<and> hybrid_score 0 [cand_login, cand_logout] cand_logout = 0
   \<and> minmax 0 (map vector_score [cand_login, cand_logout]) (vector_score cand_login) = 1
   \<and> minmax 0 (map bm25_score [cand_login, cand_logout]) (bm25_score cand_login) = 1"
proof -
  have nv: "minmax 0 (map vector_score [cand_login, cand_logout]) (vector_score cand_login) = 1"
    by (simp add: minmax_def cand_login_def cand_logout_def)
  have nb: "minmax 0 (map bm25_score [cand_login, cand_logout]) (bm25_score cand_login) = 1"
    by (simp add: minmax_def cand_login_def cand_logout_def)
  have nv': "minmax 0 (map vector_score [cand_login, cand_logout]) (vector_score cand_logout) = 0"
    by (simp add: minmax_def cand_login_def cand_logout_def)
  have nb': "minmax 0 (map bm25_score [cand_login, cand_logout]) (bm25_score cand_logout) = 0"
    by (simp add: minmax_def cand_login_def cand_logout_def)
  have m1: "cand_login \<in> set [cand_login, cand_logout]" by simp
  have m2: "cand_logout \<in> set [cand_login, cand_logout]" by simp
  have z: "(0::real) \<le> 0" "(0::real) \<le> 1" by simp_all
  from hybrid_score_spec [OF m1 z nv [symmetric] nb [symmetric]]
  have a: "hybrid_score 0 [cand_login, cand_logout] cand_login = 1" by simp
  from hybrid_score_spec [OF m2 z nv' [symmetric] nb' [symmetric]]
  have b: "hybrid_score 0 [cand_login, cand_logout] cand_logout = 0" by simp
  from a b nv nb show ?thesis by simp
qed

section \<open>Generator: the layout of the prompt\<close>

lemma render_chunks_nth:
  "i < length cs \<Longrightarrow>
     render_chunks k cs
       = render_chunks k (take i cs) @ render_chunk (k + i) (cs ! i)
           @ render_chunks (Suc (k + i)) (drop (Suc i) cs)"
proof (induction cs arbitrary: k i)
  case Nil
  then show ?case by simp
next
  case (Cons c cs)
  show ?case
  proof (cases i)
    case 0
    then show ?thesis by simp
  next
    case (Suc j)
    with Cons.prems have "j < length cs" by simp
    from Cons.IH [OF this, of "Suc k"] Suc show ?thesis by simp
  qed
qed

text \<open>
  Claim C7. Every chunk handed to the Generator appears in the prompt under the header
  \<open>--- file i: path (module: module) ---\<close>, with \<open>i\<close> its position counted from 1,
  followed by at most the first 1500 characters of its content (all of it when it is no
  longer than that); before it come the system instruction and the chunks before it, after
  it the chunks after it, and the question, as it is, ends the prompt.
\<close>

theorem build_prompt_layout:
  assumes "i < length chunks"
      and "pre = system_instruction @ render_chunks 1 (take i chunks)"
      and "post = render_chunks (Suc (Suc i)) (drop (Suc i) chunks)"
  shows "build_prompt system_instruction chunks question
           = pre
             @ ''--- file '' @ show_nat (Suc i) @ '': '' @ chunk_path (chunks ! i)
                 @ '' (module: '' @ chunk_module (chunks ! i) @ '') ---''
             @ take 1500 (chunk_content (chunks ! i))
             @ post @ question
       \<and> length (take 1500 (chunk_content (chunks ! i))) \<le> 1500
       \<and> (length (chunk_content (chunks ! i)) \<le> 1500 \<longrightarrow>
            take 1500 (chunk_content (chunks ! i)) = chunk_content (chunks ! i))
       \<and> suffix question (build_prompt system_instruction chunks question)"
proof -
  have "build_prompt system_instruction chunks question
          = system_instruction @ render_chunks 1 (take i chunks)
              @ render_chunk (Suc i) (chunks ! i)
              @ render_chunks (Suc (Suc i)) (drop (Suc i) chunks) @ question"
    using render_chunks_nth [OF assms(1), of 1] by (simp add: build_prompt_def)
  then have a: "build_prompt system_instruction chunks question
           = pre
             @ ''--- file '' @ show_nat (Suc i) @ '': '' @ chunk_path (chunks ! i)
                 @ '' (module: '' @ chunk_module (chunks ! i) @ '') ---''
             @ take 1500 (chunk_content (chunks ! i))
             @ post @ question"
    by (simp add: assms(2,3) render_chunk_def chunk_header_def preview_length_def)
  have s: "suffix question (build_prompt system_instruction chunks question)"
    unfolding build_prompt_def suffix_def by (metis append.assoc)
  from a s show ?thesis by simp
qed

theorem build_prompt_layout_witness:
  "build_prompt ''Answer from the snippets.'' [chunk_login, chunk_logout] ''find the login code''
     = ''Answer from the snippets.''
       @ ''--- file 1: a/Login.jsx (module: a) ---login handler''
       @ ''--- file 2: b/Logout.jsx (module: b) ---logout handler''
       @ ''find the login code''"
proof -
  have l: "(1::nat) < length [chunk_login, chunk_logout]" by simp
  have n: "show_nat (Suc (Suc 0)) = ''2''" "show_nat (Suc 0) = ''1''"
    by (simp_all add: show_nat.simps digit_char_def)
  have pre: "''Answer from the snippets.'' @ ''--- file 1: a/Login.jsx (module: a) ---login handler''
               = ''Answer from the snippets.'' @ render_chunks 1 (take 1 [chunk_login, chunk_logout])"
    by (simp add: render_chunk_def chunk_header_def chunk_login_def n preview_length_def)
  have post: "[] = render_chunks (Suc (Suc 1)) (drop (Suc 1) [chunk_login, chunk_logout])"
    by simp
  from build_prompt_layout [OF l pre post, of "''find the login code''"] n
  show ?thesis by (simp add: chunk_logout_def)
qed

section \<open>useStreamingChat: streams delivered in whole lines\<close>

lemma sendMessage_line_event:
  "sendMessage_line parse st l =
     (case event_type parse l of
        None \<Rightarrow> st
      | Some ty \<Rightarrow>
          if ty = JStr ''sources'' then
            (case event_data parse l of
               None \<Rightarrow> st
             | Some d \<Rightarrow> st\<lparr>sources := d, streamingSources := d\<rparr>)
          else if ty = JStr ''content'' then
            (case event_data parse l of
               None \<Rightarrow> st
             | Some d \<Rightarrow>
                 let c = content st @ js_to_string d
                 in st\<lparr>content := c, streamingContent := c\<rparr>)
          else if ty = JStr ''done'' then
            st\<lparr>completed := completed st @ [(content st, sources st)]\<rparr>
          else st)"
proof (cases "prefix ''data: '' l")
  case False
  then show ?thesis by (simp add: sendMessage_line_def event_type_def)
next
  case True
  show ?thesis
  proof (cases "parse (drop 6 l)")
    case None
    with True show ?thesis by (simp add: sendMessage_line_def event_type_def)
  next
    case (Some data)
    with True have ed: "event_data parse l = get_prop data ''data''"
      and et: "event_type parse l = get_prop data ''type''"
      by (simp_all add: event_data_def event_type_def)
    from True Some show ?thesis
      unfolding ed et by (simp add: sendMessage_line_def)
  qed
qed

lemma sendMessage_line_other:
  "\<not> answer_event parse l \<Longrightarrow> sendMessage_line parse st l = st"
  by (cases "event_type parse l") (simp_all add: answer_event_def sendMessage_line_event)

lemma foldl_sendMessage_line_filter:
  "foldl (sendMessage_line parse) st ls
     = foldl (sendMessage_line parse) st (filter (answer_event parse) ls)"
  by (induction ls arbitrary: st) (simp_all add: sendMessage_line_other)

lemma get_prop_defined:
  "get_prop v k = Some x \<Longrightarrow> \<exists>y. get_prop v k' = Some y"
  by (cases v) simp_all

lemma event_type_data:
  assumes "event_type parse l = Some ty"
  shows "\<exists>d. event_data parse l = Some d"
proof -
  from assms have p: "prefix ''data: '' l"
    by (simp add: event_type_def split: if_splits)
  with assms obtain data where d: "parse (drop 6 l) = Some data"
    and t: "get_prop data ''type'' = Some ty"
    by (auto simp: event_type_def split: option.splits)
  from get_prop_defined [OF t, of "''data''"] p d show ?thesis
    by (simp add: event_data_def)
qed

lemma sendMessage_line_sources:
  assumes "event_type parse l = Some (JStr ''sources'')"
  shows "\<exists>d. event_data parse l = Some d
           \<and> sendMessage_line parse st l = st\<lparr>sources := d, streamingSources := d\<rparr>"
proof -
  from assms have p: "prefix ''data: '' l"
    by (simp add: event_type_def split: if_splits)
  with assms obtain data where pd: "parse (drop 6 l) = Some data"
    and t: "get_prop data ''type'' = Some (JStr ''sources'')"
    by (auto simp: event_type_def split: option.splits)
  from get_prop_defined [OF t, of "''data''"] obtain d where d: "get_prop data ''data'' = Some d" ..
  from p pd d have "event_data parse l = Some d"
    by (simp add: event_data_def)
  moreover from p pd t d
  have "sendMessage_line parse st l = st\<lparr>sources := d, streamingSources := d\<rparr>"
    by (simp add: sendMessage_line_def)
  ultimately show ?thesis by simp
qed

lemma sendMessage_line_sources_field:
  "event_type parse l = Some (JStr ''content'') \<Longrightarrow>
     sources (sendMessage_line parse st l) = sources st
     \<and> completed (sendMessage_line parse st l) = completed st"
  by (auto simp: sendMessage_line_def event_type_def Let_def split: option.splits)

lemma foldl_content_lines:
  "\<forall>l \<in> set ls. event_type parse l = Some (JStr ''content'') \<Longrightarrow>
     sources (foldl (sendMessage_line parse) st ls) = sources st
     \<and> completed (foldl (sendMessage_line parse) st ls) = completed st
     \<and> content (foldl (sendMessage_line parse) st ls)
         = content st @ concat (map (content_delta parse) ls)"
  by (induction ls arbitrary: st)
     (simp_all add: sendMessage_line_sources_field sendMessage_line_content)

text \<open>
  When the lines that \<open>sendMessage\<close> gets, chunk by chunk, hold one \<open>sources\<close> event,
  then content events, then one \<open>done\<close> event, as they do when every chunk ends at the
  end of a line, \<open>onComplete\<close> is called exactly once, with the concatenation of the
  deltas and with the data of the \<open>sources\<close> event.
\<close>

text \<open>
  When every read ends at a line end and the events of the text delivered are one
  \<open>sources\<close> event, then content events, then one \<open>done\<close> event, \<open>onComplete\<close> is
  called exactly once, with the concatenation of the deltas and with the data of the
  \<open>sources\<close> event.
\<close>

lemma sendMessage_whole_lines:
  assumes whole: "list_all (\<lambda>r. ends_line (snd r)) reads"
      and wf: "filter (answer_event parse) (split_nl (text_delivered reads)) = [s] @ cs @ [d]"
      and s: "event_type parse s = Some (JStr ''sources'')"
      and cs: "\<forall>l \<in> set cs. event_type parse l = Some (JStr ''content'')"
      and d: "event_type parse d = Some (JStr ''done'')"
  shows "\<exists>src. event_data parse s = Some src
           \<and> completed (sendMessage parse st (Response True detail status reads e))
               = [(concat (map (content_delta parse) cs), src)]"
proof -
  let ?s0 = "sendMessage_started st"
  from sendMessage_line_sources [OF s, of ?s0] obtain src where
    src: "event_data parse s = Some src"
    and s1: "sendMessage_line parse ?s0 s = ?s0\<lparr>sources := src, streamingSources := src\<rparr>"
    by blast
  let ?s1 = "?s0\<lparr>sources := src, streamingSources := src\<rparr>"
  let ?s2 = "foldl (sendMessage_line parse) ?s1 cs"
  from foldl_content_lines [OF cs, of ?s1]
  have s2: "sources ?s2 = src" "completed ?s2 = []"
           "content ?s2 = concat (map (content_delta parse) cs)"
    by (simp_all add: sendMessage_started_def)
  have "fst (sendMessage_reads parse ?s0 reads e)
          = foldl (sendMessage_line parse) ?s0 ([s] @ cs @ [d])"
    using foldl_sendMessage_line_filter [of parse ?s0 "split_nl (text_delivered reads)"]
    by (simp only: sendMessage_reads_stream [OF whole] wf)
  also have "\<dots> = sendMessage_line parse ?s2 d"
    by (simp add: s1)
  finally have "completed (fst (sendMessage_reads parse ?s0 reads e))
                  = [(concat (map (content_delta parse) cs), src)]"
    by (simp add: sendMessage_line_completed d s2)
  with src show ?thesis by (simp add: sendMessage_completed)
qed

end
